theory Spec2Isabelle
  imports Main "HOL-Library.Multiset"
begin

section \<open>The manifest\<close>

text \<open>
  The validator of the package \<open>config\<close> reads a manifest that an upstream parser has
  built. The declarations of the manifest's types are not part of the sources at hand;
  the records below carry the fields that the validator reads, under the names it reads
  them by (prefixed where two structs share a field name). A Go pointer that may be nil
  is an \<open>option\<close>, a slice is a list.
\<close>

record Secret =
  Secret_Name :: string
  Secret_Namespace :: string

record Webhook =
  Secret :: "Secret option"

record TemplateBinding =
  Bindings :: "string list"

record Pipelines =
  Integration :: "TemplateBinding option"

record Repository =
  URL :: string
  Path :: string

record Service =
  Svc_Name :: string
  SourceURL :: string
  Webhook :: "Webhook option"
  Svc_Pipelines :: "Pipelines option"

record Application =
  App_Name :: string
  ServiceRefs :: "string list"
  ConfigRepo :: "Repository option"

record Environment =
  Env_Name :: string
  Env_Pipelines :: "Pipelines option"
  Apps :: "Application list"
  Services :: "Service list"

record ArgoCDConfig =
  ArgoCD_Namespace :: string

record PipelinesConfig =
  PipelinesConfig_Name :: string

record Config =
  ArgoCDConfig :: "ArgoCDConfig option"
  PipelineConfig :: "PipelinesConfig option"

record Manifest =
  Config :: "Config option"
  Environments :: "Environment list"

section \<open>Errors\<close>

text \<open>
  Go's \<open>error\<close> interface has three implementations in the validator: the
  \<open>apis.FieldError\<close> struct (message, details, paths), the plain error of
  \<open>fmt.Errorf\<close>, and the aggregate that \<open>multierror.Join\<close> builds. A field left out
  of a struct literal is the empty string.
\<close>

datatype error =
    FieldError (Message: string) (Details: string) (Paths: "string list")
  | Errorf string
  | MultiError "error list"

text \<open>
  Modelled from the spec: \<open>multierror.Join\<close> belongs to a library outside the sources. The
  spec has it collect the individual errors into one combined error value, and give the
  absence of an error for an empty input.
\<close>

definition Join :: "error list \<Rightarrow> error option" where
  "Join es = (if es = [] then None else Some (MultiError es))"

text \<open>
  Modelled from the spec: the \<open>%q\<close> verb of \<open>fmt.Sprintf\<close> is rendered as the spec's
  message templates show it, the value between double quotes. Escaping inside the value
  is not modelled.
\<close>

definition quote :: "string \<Rightarrow> string" where
  "quote s = [CHR 0x22] @ s @ [CHR 0x22]"

fun strings_Join :: "string list \<Rightarrow> string \<Rightarrow> string" where
  "strings_Join [] sep = []"
| "strings_Join [x] sep = x"
| "strings_Join (x # y # ys) sep = x @ sep @ strings_Join (y # ys) sep"

definition addQuotes :: "string list \<Rightarrow> string list" where
  "addQuotes items = map quote items"

definition invalidNameError :: "string \<Rightarrow> string \<Rightarrow> string list \<Rightarrow> error" where
  "invalidNameError name details paths = FieldError (''invalid name '' @ quote name) details paths"

definition missingFieldsError :: "string list \<Rightarrow> string list \<Rightarrow> error" where
  "missingFieldsError flds paths =
     FieldError (''missing field(s) '' @ strings_Join (addQuotes flds) '','') [] paths"

definition duplicateFieldsError :: "string list \<Rightarrow> string list \<Rightarrow> error" where
  "duplicateFieldsError flds paths =
     FieldError (''duplicate field(s) '' @ strings_Join (addQuotes flds) '','') [] paths"

definition missingServiceRefError :: "string \<Rightarrow> string \<Rightarrow> string list \<Rightarrow> error" where
  "missingServiceRefError svc app paths =
     FieldError (''missing service '' @ quote svc @ '' in app '' @ quote app) [] paths"

definition duplicateSourceError :: "string \<Rightarrow> string list \<Rightarrow> error" where
  "duplicateSourceError url paths = FieldError (''duplicate source '' @ url) [] paths"

text \<open>
  Modelled from the spec: \<open>apis.ErrMultipleOneOf\<close> belongs to a library outside the
  sources. The spec calls its result the mutually-exclusive-fields error; it is a field
  error over the paths it is given.
\<close>

definition ErrMultipleOneOf :: "string list \<Rightarrow> error" where
  "ErrMultipleOneOf fieldPaths = FieldError ''expected exactly one, got both'' [] fieldPaths"

section \<open>Paths\<close>

definition yamlPath :: "string \<Rightarrow> string" where
  "yamlPath path = map (\<lambda>c. if c = CHR ''/'' then CHR ''.'' else c) path"

definition yamlJoin :: "string \<Rightarrow> string list \<Rightarrow> string" where
  "yamlJoin a b = foldl (\<lambda>a s. a @ ''.'' @ s) a b"

text \<open>
  Modelled from the spec: the path builders \<open>PathForEnvironment\<close>, \<open>PathForApplication\<close>
  and \<open>PathForService\<close> are not part of the sources. The spec makes the path a
  deterministic, slash-separated address of the node, built from the environment and the
  name of the application or service; the validator passes exactly these arguments.
\<close>

definition PathForEnvironment :: "Environment \<Rightarrow> string" where
  "PathForEnvironment env = ''environments/'' @ Env_Name env"

definition PathForApplication :: "Environment \<Rightarrow> Application \<Rightarrow> string" where
  "PathForApplication env app = PathForEnvironment env @ ''/apps/'' @ App_Name app"

definition PathForService :: "Environment \<Rightarrow> string \<Rightarrow> string" where
  "PathForService env serviceName = PathForEnvironment env @ ''/services/'' @ serviceName"

section \<open>The name rule\<close>

text \<open>
  Modelled from the spec: \<open>validation.NameIsDNS1035Label\<close> belongs to a library outside
  the sources. The spec gives its grammar, \<open>^[a-z]([-a-z0-9]*[a-z0-9])?$\<close> with at most
  63 characters, and has it return the reasons of a rejection (none for a valid name).
  The spec gives no meaning to the second argument, and fixes no wording for the
  reasons.
\<close>

definition isLower :: "char \<Rightarrow> bool" where
  "isLower c = (c \<in> set ''abcdefghijklmnopqrstuvwxyz'')"

definition isDigit :: "char \<Rightarrow> bool" where
  "isDigit c = (c \<in> set ''0123456789'')"

definition isLabelChar :: "char \<Rightarrow> bool" where
  "isLabelChar c = (c = CHR ''-'' \<or> isLower c \<or> isDigit c)"

fun matchDNS1035Label :: "string \<Rightarrow> bool" where
  "matchDNS1035Label [] = False"
| "matchDNS1035Label (c # cs) =
     (isLower c \<and> (cs = [] \<or> (list_all isLabelChar cs \<and> (isLower (last cs) \<or> isDigit (last cs)))))"

definition DNS1035LabelMaxLength :: nat where
  "DNS1035LabelMaxLength = 63"

definition maxLenErrMsg :: string where
  "maxLenErrMsg = ''must be no more than 63 characters''"

definition dns1035LabelErrMsg :: string where
  "dns1035LabelErrMsg = ''a DNS-1035 label must match [a-z]([-a-z0-9]*[a-z0-9])?''"

definition NameIsDNS1035Label :: "string \<Rightarrow> bool \<Rightarrow> string list" where
  "NameIsDNS1035Label name prefix =
     (if length name > DNS1035LabelMaxLength then [maxLenErrMsg] else []) @
     (if \<not> matchDNS1035Label name then [dns1035LabelErrMsg] else [])"

definition validateName :: "string \<Rightarrow> string \<Rightarrow> error option" where
  "validateName name path =
     (case NameIsDNS1035Label name True of
        [] \<Rightarrow> None
      | e # _ \<Rightarrow> Some (invalidNameError name e [path]))"

section \<open>The validating visitor\<close>

record validateVisitor =
  errs :: "error list"
  envNames :: "string \<rightharpoonup> bool"
  appNames :: "string \<rightharpoonup> bool"
  serviceNames :: "string \<rightharpoonup> bool"
  serviceURLs :: "string \<rightharpoonup> string list"
  configNames :: "string \<rightharpoonup> bool"

text \<open>
  \<open>checkDuplicate\<close> writes to the map it is given; the model returns the map next to the
  error.
\<close>

definition checkDuplicate :: "string \<Rightarrow> string \<Rightarrow> (string \<rightharpoonup> bool) \<Rightarrow> error option \<times> (string \<rightharpoonup> bool)" where
  "checkDuplicate field path checkMap =
     (if checkMap path \<noteq> None
      then (Some (duplicateFieldsError [field] [path]), checkMap)
      else (None, checkMap(path \<mapsto> True)))"

definition validateConfigRepo :: "Repository \<Rightarrow> string \<Rightarrow> error list" where
  "validateConfigRepo repo path =
     (let missingFields = [];
          missingFields = (if URL repo = [] then missingFields @ [''url''] else missingFields);
          missingFields = (if Path repo = [] then missingFields @ [''path''] else missingFields)
      in if length missingFields > 0 then [missingFieldsError missingFields [path]] else [])"

definition validateWebhook :: "Webhook option \<Rightarrow> string \<Rightarrow> error list" where
  "validateWebhook hook path =
     (case hook of
        None \<Rightarrow> []
      | Some h \<Rightarrow>
          (case Secret h of
             None \<Rightarrow> [missingFieldsError [''secret''] [yamlJoin path [''webhook'']]]
           | Some sec \<Rightarrow>
               (case validateName (Secret_Name sec) (yamlJoin path [''webhook'', ''secret'', ''name'']) of
                  None \<Rightarrow> [] | Some e \<Rightarrow> [e]) @
               (case validateName (Secret_Namespace sec) (yamlJoin path [''webhook'', ''secret'', ''namespace'']) of
                  None \<Rightarrow> [] | Some e \<Rightarrow> [e])))"

definition validatePipelines :: "Pipelines option \<Rightarrow> string \<Rightarrow> error list" where
  "validatePipelines pipelines path =
     (case pipelines of
        None \<Rightarrow> []
      | Some p \<Rightarrow>
          (case Integration p of
             None \<Rightarrow> [missingFieldsError [''integration''] [yamlJoin path [''pipelines'']]]
           | Some i \<Rightarrow>
               List.map_filter
                 (\<lambda>name. validateName name (yamlJoin path [''pipelines'', ''integration'', ''binding'']))
                 (Bindings i)))"

definition validateConfig :: "validateVisitor \<Rightarrow> Manifest \<Rightarrow> error list \<times> validateVisitor" where
  "validateConfig vv manifest =
     (case Config manifest of
        None \<Rightarrow> ([], vv)
      | Some cfg \<Rightarrow>
          (let (errs1, vv) =
                 (case ArgoCDConfig cfg of
                    None \<Rightarrow> ([], vv)
                  | Some argo \<Rightarrow>
                      ((case validateName (ArgoCD_Namespace argo) (''config.'' @ ArgoCD_Namespace argo) of
                          None \<Rightarrow> [] | Some e \<Rightarrow> [e]),
                       vv\<lparr>configNames := (configNames vv)(ArgoCD_Namespace argo \<mapsto> True)\<rparr>));
               (errs2, vv) =
                 (case PipelineConfig cfg of
                    None \<Rightarrow> (errs1, vv)
                  | Some pc \<Rightarrow>
                      (errs1 @ (case validateName (PipelinesConfig_Name pc) (''config.'' @ PipelinesConfig_Name pc) of
                          None \<Rightarrow> [] | Some e \<Rightarrow> [e]),
                       vv\<lparr>configNames := (configNames vv)(PipelinesConfig_Name pc \<mapsto> True)\<rparr>))
           in (errs2, vv)))"

text \<open>
  The three callbacks of the walker. Each appends to \<open>vv.errs\<close>, may write to the
  registries, and returns nil; the model returns that result next to the visitor.
\<close>

definition validateVisitor_Environment :: "validateVisitor \<Rightarrow> Environment \<Rightarrow> error option \<times> validateVisitor" where
  "validateVisitor_Environment vv env =
     (let envPath = yamlPath (PathForEnvironment env);
          vv = (if configNames vv (Env_Name env) \<noteq> None
                then vv\<lparr>errs := errs vv @
                       [Errorf (''The environment '' @ Env_Name env @ '' cannot have the same name as the config names'')]\<rparr>
                else vv);
          (err, m) = checkDuplicate (Env_Name env) envPath (envNames vv);
          vv = vv\<lparr>envNames := m\<rparr>;
          vv = (case err of Some e \<Rightarrow> vv\<lparr>errs := errs vv @ [e]\<rparr> | None \<Rightarrow> vv);
          vv = (case validateName (Env_Name env) envPath of
                  Some e \<Rightarrow> vv\<lparr>errs := errs vv @ [e]\<rparr> | None \<Rightarrow> vv);
          vv = vv\<lparr>errs := errs vv @ validatePipelines (Env_Pipelines env) envPath\<rparr>
      in (None, vv))"

definition validateVisitor_Application :: "validateVisitor \<Rightarrow> Environment \<Rightarrow> Application \<Rightarrow> error option \<times> validateVisitor" where
  "validateVisitor_Application vv env app =
     (let appPath = yamlPath (PathForApplication env app);
          (err, m) = checkDuplicate (App_Name app) appPath (appNames vv);
          vv = vv\<lparr>appNames := m\<rparr>;
          vv = (case err of Some e \<Rightarrow> vv\<lparr>errs := errs vv @ [e]\<rparr> | None \<Rightarrow> vv);
          vv = (case validateName (App_Name app) appPath of
                  Some e \<Rightarrow> vv\<lparr>errs := errs vv @ [e]\<rparr> | None \<Rightarrow> vv);
          vv = (if length (ServiceRefs app) = 0 \<and> ConfigRepo app = None
                then vv\<lparr>errs := errs vv @ [missingFieldsError [''services'', ''config_repo''] [appPath]]\<rparr>
                else vv);
          vv = (if length (ServiceRefs app) > 0 \<and> ConfigRepo app \<noteq> None
                then vv\<lparr>errs := errs vv @
                       [ErrMultipleOneOf [yamlJoin appPath [''services''], yamlJoin appPath [''config_repo'']]]\<rparr>
                else vv);
          vv = (case ConfigRepo app of
                  Some repo \<Rightarrow> vv\<lparr>errs := errs vv @ validateConfigRepo repo (yamlJoin appPath [''config_repo''])\<rparr>
                | None \<Rightarrow> vv);
          vv = (if length (ServiceRefs app) > 0
                then vv\<lparr>errs := errs vv @
                       map (\<lambda>r. missingServiceRefError r (App_Name app) [appPath])
                         (filter (\<lambda>r. serviceNames vv r = None) (ServiceRefs app))\<rparr>
                else vv)
      in (None, vv))"

definition validateVisitor_Service :: "validateVisitor \<Rightarrow> Environment \<Rightarrow> Service \<Rightarrow> error option \<times> validateVisitor" where
  "validateVisitor_Service vv env svc =
     (let svcPath = yamlPath (PathForService env (Svc_Name svc));
          vv = (if SourceURL svc \<noteq> []
                then (let previous = (case serviceURLs vv (SourceURL svc) of Some ps \<Rightarrow> ps | None \<Rightarrow> []);
                          previous = previous @ [svcPath]
                      in vv\<lparr>serviceURLs := (serviceURLs vv)(SourceURL svc \<mapsto> previous)\<rparr>)
                else vv);
          (err, m) = checkDuplicate (Svc_Name svc) svcPath (serviceNames vv);
          vv = vv\<lparr>serviceNames := m\<rparr>;
          vv = (case err of Some e \<Rightarrow> vv\<lparr>errs := errs vv @ [e]\<rparr> | None \<Rightarrow> vv);
          vv = (case validateName (Svc_Name svc) svcPath of
                  Some e \<Rightarrow> vv\<lparr>errs := errs vv @ [e]\<rparr> | None \<Rightarrow> vv);
          vv = vv\<lparr>errs := errs vv @ validateWebhook (Webhook svc) svcPath\<rparr>;
          vv = vv\<lparr>errs := errs vv @ validatePipelines (Svc_Pipelines svc) svcPath\<rparr>;
          vv = vv\<lparr>serviceNames := (serviceNames vv)(Svc_Name svc \<mapsto> True)\<rparr>
      in (None, vv))"

section \<open>The walk\<close>

text \<open>
  Modelled from the spec: \<open>Manifest.Walk\<close> is not part of the sources. The spec has it
  visit the environments in document order and, within an environment, the environment
  itself, then its applications in document order, then its service declarations in
  document order; it calls the visitor's callback at each node and stops at the first
  callback that returns an error, which it hands back.
\<close>

datatype node =
    EnvNode Environment
  | AppNode Environment Application
  | SvcNode Environment Service

definition nodesOf :: "Manifest \<Rightarrow> node list" where
  "nodesOf m =
     concat (map (\<lambda>env. EnvNode env # map (AppNode env) (Apps env) @ map (SvcNode env) (Services env))
                 (Environments m))"

fun visit :: "validateVisitor \<Rightarrow> node \<Rightarrow> error option \<times> validateVisitor" where
  "visit vv (EnvNode env) = validateVisitor_Environment vv env"
| "visit vv (AppNode env app) = validateVisitor_Application vv env app"
| "visit vv (SvcNode env svc) = validateVisitor_Service vv env svc"

fun walkNodes :: "node list \<Rightarrow> validateVisitor \<Rightarrow> error option \<times> validateVisitor" where
  "walkNodes [] vv = (None, vv)"
| "walkNodes (n # ns) vv =
     (case visit vv n of
        (Some err, vv') \<Rightarrow> (Some err, vv')
      | (None, vv') \<Rightarrow> walkNodes ns vv')"

definition Walk :: "Manifest \<Rightarrow> validateVisitor \<Rightarrow> error option \<times> validateVisitor" where
  "Walk m vv = walkNodes (nodesOf m) vv"

section \<open>Validate\<close>

text \<open>
  \<open>validateServiceURLs\<close> ranges over the map \<open>vv.serviceURLs\<close>. Go leaves the order of a
  range over a map unspecified, and it may change from one run to the next; the model
  takes the order the runtime picks as the argument \<open>ks\<close>. It is a range order of the map
  when it lists every key of the map once.
\<close>

definition rangeOrder :: "('k \<rightharpoonup> 'v) \<Rightarrow> 'k list \<Rightarrow> bool" where
  "rangeOrder m ks = (distinct ks \<and> set ks = dom m)"

definition validateServiceURLs :: "string list \<Rightarrow> validateVisitor \<Rightarrow> error list" where
  "validateServiceURLs ks vv =
     concat (map (\<lambda>url. case serviceURLs vv url of
                          None \<Rightarrow> []
                        | Some paths \<Rightarrow> if length paths > 1 then [duplicateSourceError url paths] else [])
                 ks)"

definition newVisitor :: validateVisitor where
  "newVisitor = \<lparr>errs = [], envNames = Map.empty, appNames = Map.empty,
                  serviceNames = Map.empty, serviceURLs = Map.empty, configNames = Map.empty\<rparr>"

definition Validate :: "string list \<Rightarrow> Manifest \<Rightarrow> error option" where
  "Validate ks m =
     (let vv = newVisitor;
          (cerrs, vv) = validateConfig vv m;
          vv = vv\<lparr>errs := errs vv @ cerrs\<rparr>;
          (err, vv) = Walk m vv;
          vv = (case err of Some e \<Rightarrow> vv\<lparr>errs := errs vv @ [e]\<rparr> | None \<Rightarrow> vv);
          vv = vv\<lparr>errs := errs vv @ validateServiceURLs ks vv\<rparr>
      in if length (errs vv) = 0 then None else Join (errs vv))"

section \<open>Notions used by the properties\<close>

text \<open>
  The yaml paths that the callbacks compute for the node they visit.
\<close>

abbreviation envPath :: "Environment \<Rightarrow> string" where
  "envPath env \<equiv> yamlPath (PathForEnvironment env)"

abbreviation appPath :: "Environment \<Rightarrow> Application \<Rightarrow> string" where
  "appPath env app \<equiv> yamlPath (PathForApplication env app)"

abbreviation svcPath :: "Environment \<Rightarrow> Service \<Rightarrow> string" where
  "svcPath env svc \<equiv> yamlPath (PathForService env (Svc_Name svc))"

text \<open>
  The visitor at three moments of \<open>Validate\<close>: after the config check, once the walk has
  visited the nodes \<open>ns\<close>, and when the walk has returned.
\<close>

definition afterConfig :: "Manifest \<Rightarrow> validateVisitor" where
  "afterConfig m = (let (cerrs, vv) = validateConfig newVisitor m in vv\<lparr>errs := errs vv @ cerrs\<rparr>)"

definition visitorAt :: "Manifest \<Rightarrow> node list \<Rightarrow> validateVisitor" where
  "visitorAt m ns = snd (walkNodes ns (afterConfig m))"

definition afterWalk :: "Manifest \<Rightarrow> validateVisitor" where
  "afterWalk m =
     (let (err, vv) = Walk m (afterConfig m)
      in case err of Some e \<Rightarrow> vv\<lparr>errs := errs vv @ [e]\<rparr> | None \<Rightarrow> vv)"

text \<open>The errors that a step from visitor \<open>vv\<close> to visitor \<open>vv'\<close> has appended.\<close>

definition appended :: "validateVisitor \<Rightarrow> validateVisitor \<Rightarrow> error list" where
  "appended vv vv' = drop (length (errs vv)) (errs vv')"

text \<open>The individual errors of a result of \<open>Validate\<close>.\<close>

fun members :: "error option \<Rightarrow> error list" where
  "members None = []"
| "members (Some (MultiError es)) = es"
| "members (Some e) = [e]"

text \<open>
  The paths of the services that declare the source \<open>url\<close>, in the order the walk
  visits them, and the test that an error is a duplicate-source error for \<open>url\<close>.
\<close>

definition sourcePaths :: "string \<Rightarrow> node list \<Rightarrow> string list" where
  "sourcePaths url ns =
     concat (map (\<lambda>n. case n of
                         SvcNode env svc \<Rightarrow> if SourceURL svc = url then [svcPath env svc] else []
                       | _ \<Rightarrow> []) ns)"


text \<open>
  The grammar of the name rule in the spec's words: a lower-case letter, then nothing or
  any number of label characters closed by a letter or digit.
\<close>

definition dns1035Grammar :: "string \<Rightarrow> bool" where
  "dns1035Grammar s =
     (\<exists>c rest. s = c # rest \<and> isLower c \<and>
        (rest = [] \<or> (\<exists>mid d. rest = mid @ [d] \<and> list_all isLabelChar mid \<and> (isLower d \<or> isDigit d))))"


section \<open>Example manifests\<close>

definition emptyManifest :: Manifest where
  "emptyManifest = \<lparr>Config = None, Environments = []\<rparr>"

definition collidingManifest :: Manifest where
  "collidingManifest =
     \<lparr>Config = Some \<lparr>ArgoCDConfig = Some \<lparr>ArgoCD_Namespace = ''Argo_CD''\<rparr>, PipelineConfig = None\<rparr>,
      Environments = [\<lparr>Env_Name = ''Argo_CD'', Env_Pipelines = None, Apps = [], Services = []\<rparr>]\<rparr>"

definition twinManifest :: Manifest where
  "twinManifest =
     \<lparr>Config = None,
      Environments = [\<lparr>Env_Name = ''dev'', Env_Pipelines = None, Apps = [], Services = []\<rparr>,
                      \<lparr>Env_Name = ''stage'', Env_Pipelines = None, Apps = [], Services = []\<rparr>,
                      \<lparr>Env_Name = ''dev'', Env_Pipelines = None, Apps = [], Services = []\<rparr>]\<rparr>"

definition devEnv :: Environment where
  "devEnv = \<lparr>Env_Name = ''dev'', Env_Pipelines = None, Apps = [], Services = []\<rparr>"

definition bareApp :: Application where
  "bareApp = \<lparr>App_Name = ''app1'', ServiceRefs = [], ConfigRepo = None\<rparr>"

definition fullApp :: Application where
  "fullApp = \<lparr>App_Name = ''app2'', ServiceRefs = [''svc1''],
               ConfigRepo = Some \<lparr>URL = ''https://example.com/org/repo.git'', Path = ''deploy''\<rparr>\<rparr>"

definition forwardSvc :: Service where
  "forwardSvc = \<lparr>Svc_Name = ''svc1'', SourceURL = [], Webhook = None, Svc_Pipelines = None\<rparr>"

definition forwardApp :: Application where
  "forwardApp = \<lparr>App_Name = ''app1'', ServiceRefs = [''svc1''], ConfigRepo = None\<rparr>"

definition forwardEnv :: Environment where
  "forwardEnv = \<lparr>Env_Name = ''dev'', Env_Pipelines = None, Apps = [forwardApp], Services = []\<rparr>"

definition laterEnv :: Environment where
  "laterEnv = \<lparr>Env_Name = ''stage'', Env_Pipelines = None, Apps = [], Services = [forwardSvc]\<rparr>"

definition forwardManifest :: Manifest where
  "forwardManifest = \<lparr>Config = None, Environments = [forwardEnv, laterEnv]\<rparr>"

definition crossSvc :: Service where
  "crossSvc = \<lparr>Svc_Name = ''Bad_Svc'', SourceURL = [], Webhook = None, Svc_Pipelines = None\<rparr>"

definition envOne :: Environment where
  "envOne = \<lparr>Env_Name = ''one'', Env_Pipelines = None, Apps = [], Services = [crossSvc]\<rparr>"

definition nameApp :: Application where
  "nameApp = \<lparr>App_Name = ''app1'', ServiceRefs = [''Bad_Svc''], ConfigRepo = None\<rparr>"

definition pathApp :: Application where
  "pathApp = \<lparr>App_Name = ''app2'', ServiceRefs = [''environments.one.services.Bad_Svc''], ConfigRepo = None\<rparr>"

definition envTwo :: Environment where
  "envTwo = \<lparr>Env_Name = ''two'', Env_Pipelines = None, Apps = [nameApp, pathApp], Services = []\<rparr>"

definition crossManifest :: Manifest where
  "crossManifest = \<lparr>Config = None, Environments = [envOne, envTwo]\<rparr>"

definition sourceOne :: string where
  "sourceOne = ''https://example.com/org/one.git''"

definition sourceTwo :: string where
  "sourceTwo = ''https://example.com/org/two.git''"


definition twoSourcesManifest :: Manifest where
  "twoSourcesManifest =
     \<lparr>Config = None,
      Environments =
        [\<lparr>Env_Name = ''dev'', Env_Pipelines = None, Apps = [],
          Services = [\<lparr>Svc_Name = ''svc-a'', SourceURL = sourceOne, Webhook = None, Svc_Pipelines = None\<rparr>,
                      \<lparr>Svc_Name = ''svc-b'', SourceURL = sourceOne, Webhook = None, Svc_Pipelines = None\<rparr>,
                      \<lparr>Svc_Name = ''svc-c'', SourceURL = sourceTwo, Webhook = None, Svc_Pipelines = None\<rparr>,
                      \<lparr>Svc_Name = ''svc-d'', SourceURL = sourceTwo, Webhook = None, Svc_Pipelines = None\<rparr>]\<rparr>]\<rparr>"

definition aliasSvc :: Service where
  "aliasSvc = \<lparr>Svc_Name = ''s1'', SourceURL = [], Webhook = None, Svc_Pipelines = None\<rparr>"

definition aliasEnvA :: Environment where
  "aliasEnvA = \<lparr>Env_Name = ''aa'', Env_Pipelines = None, Apps = [], Services = [aliasSvc]\<rparr>"

definition aliasApp :: Application where
  "aliasApp = \<lparr>App_Name = ''app1'', ServiceRefs = [''environments.aa.services.s1''], ConfigRepo = None\<rparr>"

definition aliasEnvB :: Environment where
  "aliasEnvB = \<lparr>Env_Name = ''bb'', Env_Pipelines = None, Apps = [aliasApp], Services = []\<rparr>"

definition laterSvc :: Service where
  "laterSvc = \<lparr>Svc_Name = ''environments.aa.services.s1'', SourceURL = [], Webhook = None, Svc_Pipelines = None\<rparr>"

definition aliasEnvC :: Environment where
  "aliasEnvC = \<lparr>Env_Name = ''cc'', Env_Pipelines = None, Apps = [], Services = [laterSvc]\<rparr>"

definition aliasManifest :: Manifest where
  "aliasManifest = \<lparr>Config = None, Environments = [aliasEnvA, aliasEnvB, aliasEnvC]\<rparr>"

section \<open>Properties of the callbacks and of the walk\<close>

lemma Environment_result:
  "validateVisitor_Environment vv env =
     (None, vv\<lparr>errs := errs vv @
        (if configNames vv (Env_Name env) \<noteq> None
         then [Errorf (''The environment '' @ Env_Name env @ '' cannot have the same name as the config names'')] else []) @
        (if envNames vv (yamlPath (PathForEnvironment env)) \<noteq> None
         then [duplicateFieldsError [Env_Name env] [yamlPath (PathForEnvironment env)]] else []) @
        (case validateName (Env_Name env) (yamlPath (PathForEnvironment env)) of None \<Rightarrow> [] | Some e \<Rightarrow> [e]) @
        validatePipelines (Env_Pipelines env) (yamlPath (PathForEnvironment env)),
       envNames := (if envNames vv (yamlPath (PathForEnvironment env)) \<noteq> None then envNames vv
                    else (envNames vv)(yamlPath (PathForEnvironment env) \<mapsto> True))\<rparr>)"
  by (simp add: validateVisitor_Environment_def checkDuplicate_def Let_def split: option.splits)

lemma Application_result:
  "validateVisitor_Application vv env app =
     (None, vv\<lparr>errs := errs vv @
        (if appNames vv (yamlPath (PathForApplication env app)) \<noteq> None
         then [duplicateFieldsError [App_Name app] [yamlPath (PathForApplication env app)]] else []) @
        (case validateName (App_Name app) (yamlPath (PathForApplication env app)) of None \<Rightarrow> [] | Some e \<Rightarrow> [e]) @
        (if ServiceRefs app = [] \<and> ConfigRepo app = None
         then [missingFieldsError [''services'', ''config_repo''] [yamlPath (PathForApplication env app)]] else []) @
        (if ServiceRefs app \<noteq> [] \<and> ConfigRepo app \<noteq> None
         then [ErrMultipleOneOf [yamlJoin (yamlPath (PathForApplication env app)) [''services''],
                                 yamlJoin (yamlPath (PathForApplication env app)) [''config_repo'']]] else []) @
        (case ConfigRepo app of None \<Rightarrow> []
         | Some repo \<Rightarrow> validateConfigRepo repo (yamlJoin (yamlPath (PathForApplication env app)) [''config_repo''])) @
        map (\<lambda>r. missingServiceRefError r (App_Name app) [yamlPath (PathForApplication env app)])
            (filter (\<lambda>r. serviceNames vv r = None) (ServiceRefs app)),
       appNames := (if appNames vv (yamlPath (PathForApplication env app)) \<noteq> None then appNames vv
                    else (appNames vv)(yamlPath (PathForApplication env app) \<mapsto> True))\<rparr>)"
  by (simp add: validateVisitor_Application_def checkDuplicate_def Let_def split: option.splits)

lemma Service_result:
  "validateVisitor_Service vv env svc =
     (None, vv\<lparr>errs := errs vv @
        (if serviceNames vv (yamlPath (PathForService env (Svc_Name svc))) \<noteq> None
         then [duplicateFieldsError [Svc_Name svc] [yamlPath (PathForService env (Svc_Name svc))]] else []) @
        (case validateName (Svc_Name svc) (yamlPath (PathForService env (Svc_Name svc))) of None \<Rightarrow> [] | Some e \<Rightarrow> [e]) @
        validateWebhook (Webhook svc) (yamlPath (PathForService env (Svc_Name svc))) @
        validatePipelines (Svc_Pipelines svc) (yamlPath (PathForService env (Svc_Name svc))),
       serviceURLs := (if SourceURL svc \<noteq> []
                       then (serviceURLs vv)(SourceURL svc \<mapsto>
                              (case serviceURLs vv (SourceURL svc) of Some ps \<Rightarrow> ps | None \<Rightarrow> []) @
                              [yamlPath (PathForService env (Svc_Name svc))])
                       else serviceURLs vv),
       serviceNames := (if serviceNames vv (yamlPath (PathForService env (Svc_Name svc))) \<noteq> None then serviceNames vv
                    else (serviceNames vv)(yamlPath (PathForService env (Svc_Name svc)) \<mapsto> True))
                    (Svc_Name svc \<mapsto> True)\<rparr>)"
  by (simp add: validateVisitor_Service_def checkDuplicate_def Let_def split: option.splits)


lemma visit_fst: "fst (visit vv n) = None"
  by (cases n) (simp_all add: Environment_result Application_result Service_result)

lemma walkNodes_fst: "fst (walkNodes ns vv) = None"
proof (induction ns arbitrary: vv)
  case Nil
  show ?case by simp
next
  case (Cons n ns)
  obtain r vv' where v: "visit vv n = (r, vv')" by (cases "visit vv n")
  with visit_fst [of vv n] have "r = None" by simp
  with v Cons show ?case by simp
qed

lemma walkNodes_Cons: "walkNodes (n # ns) vv = walkNodes ns (snd (visit vv n))"
proof -
  obtain r vv' where v: "visit vv n = (r, vv')" by (cases "visit vv n")
  with visit_fst [of vv n] have "r = None" by simp
  with v show ?thesis by simp
qed

lemma walkNodes_append: "walkNodes (xs @ ys) vv = walkNodes ys (snd (walkNodes xs vv))"
  by (induction xs arbitrary: vv) (simp_all add: walkNodes_Cons del: walkNodes.simps(2))

lemma Validate_afterWalk:
  "Validate ks m =
     (if errs (afterWalk m) @ validateServiceURLs ks (afterWalk m) = [] then None
      else Some (MultiError (errs (afterWalk m) @ validateServiceURLs ks (afterWalk m))))"
  by (simp add: Validate_def afterWalk_def afterConfig_def Join_def Let_def validateServiceURLs_def
        split: prod.splits option.splits)

lemma afterWalk_visitorAt: "afterWalk m = visitorAt m (nodesOf m)"
proof -
  obtain r vv where w: "Walk m (afterConfig m) = (r, vv)" by (cases "Walk m (afterConfig m)")
  with walkNodes_fst [of "nodesOf m" "afterConfig m"] have "r = None" by (simp add: Walk_def)
  with w show ?thesis by (simp add: afterWalk_def visitorAt_def Walk_def)
qed


lemma visit_errs_ex: "\<exists>new. errs (snd (visit vv n)) = errs vv @ new"
  by (cases n) (simp_all add: Environment_result Application_result Service_result)

lemma walkNodes_errs_ex: "\<exists>new. errs (snd (walkNodes ns vv)) = errs vv @ new"
proof (induction ns arbitrary: vv)
  case Nil
  show ?case by simp
next
  case (Cons n ns)
  obtain a where a: "errs (snd (visit vv n)) = errs vv @ a"
    using visit_errs_ex by blast
  obtain b where b: "errs (snd (walkNodes ns (snd (visit vv n)))) = errs (snd (visit vv n)) @ b"
    using Cons.IH by blast
  have "errs (snd (walkNodes (n # ns) vv)) = errs vv @ (a @ b)"
    unfolding walkNodes_Cons using a b by simp
  then show ?case by blast
qed


lemma walkNodes_errs: "errs (snd (walkNodes ns vv)) = errs vv @ appended vv (snd (walkNodes ns vv))"
  using walkNodes_errs_ex [of ns vv] by (auto simp: appended_def)

lemma walkNodes_errs_mono: "e \<in> set (errs vv) \<Longrightarrow> e \<in> set (errs (snd (walkNodes ns vv)))"
  using walkNodes_errs_ex [of ns vv] by auto

lemma visit_configNames: "configNames (snd (visit vv n)) = configNames vv"
  by (cases n) (simp_all add: Environment_result Application_result Service_result)

lemma walkNodes_configNames: "configNames (snd (walkNodes ns vv)) = configNames vv"
  by (induction ns arbitrary: vv) (simp_all add: walkNodes_Cons visit_configNames del: walkNodes.simps(2))

lemma visit_envNames_mono: "k \<in> dom (envNames vv) \<Longrightarrow> k \<in> dom (envNames (snd (visit vv n)))"
  by (cases n) (auto simp add: Environment_result Application_result Service_result)

lemma walkNodes_envNames_mono: "k \<in> dom (envNames vv) \<Longrightarrow> k \<in> dom (envNames (snd (walkNodes ns vv)))"
proof (induction ns arbitrary: vv)
  case Nil
  then show ?case by simp
next
  case (Cons n ns)
  have "k \<in> dom (envNames (snd (visit vv n)))"
    using Cons.prems by (rule visit_envNames_mono)
  then have "k \<in> dom (envNames (snd (walkNodes ns (snd (visit vv n)))))"
    by (rule Cons.IH)
  then show ?case by (simp only: walkNodes_Cons)
qed

lemma visit_serviceNames:
  "r \<in> dom (serviceNames (snd (visit vv n))) \<longleftrightarrow>
     r \<in> dom (serviceNames vv) \<or> (\<exists>env svc. n = SvcNode env svc \<and> (r = Svc_Name svc \<or> r = svcPath env svc))"
  by (cases n) (auto simp add: Environment_result Application_result Service_result)

lemma walkNodes_serviceNames:
  "r \<in> dom (serviceNames (snd (walkNodes ns vv))) \<longleftrightarrow>
     r \<in> dom (serviceNames vv) \<or>
     (\<exists>env svc. SvcNode env svc \<in> set ns \<and> (r = Svc_Name svc \<or> r = svcPath env svc))"
proof (induction ns arbitrary: vv)
  case Nil
  show ?case by simp
next
  case (Cons n ns)
  show ?case
    unfolding walkNodes_Cons Cons.IH visit_serviceNames by auto
qed

lemma validateConfig_errs: "errs (snd (validateConfig vv m)) = errs vv"
  by (simp add: validateConfig_def Let_def split: option.splits prod.splits)

lemma afterConfig_errs: "errs (afterConfig m) = fst (validateConfig newVisitor m)"
proof -
  obtain c v where cv: "validateConfig newVisitor m = (c, v)" by (cases "validateConfig newVisitor m")
  with validateConfig_errs [of newVisitor m] have "errs v = []" by (simp add: newVisitor_def)
  with cv show ?thesis by (simp add: afterConfig_def)
qed

lemma afterWalk_errs:
  "errs (afterWalk m) = fst (validateConfig newVisitor m) @ appended (afterConfig m) (afterWalk m)"
  using walkNodes_errs [of "nodesOf m" "afterConfig m"]
  by (simp add: afterWalk_visitorAt visitorAt_def afterConfig_errs)

lemma members_Validate:
  "members (Validate ks m) = errs (afterWalk m) @ validateServiceURLs ks (afterWalk m)"
  by (simp add: Validate_afterWalk)

lemma afterConfig_configNames: "configNames (afterConfig m) = configNames (snd (validateConfig newVisitor m))"
  by (simp add: afterConfig_def split: prod.splits)

lemma validateConfig_registers:
  assumes "Config m = Some cfg"
  shows "ArgoCDConfig cfg = Some argo \<Longrightarrow> configNames (snd (validateConfig vv m)) (ArgoCD_Namespace argo) = Some True"
    and "PipelineConfig cfg = Some pc \<Longrightarrow> configNames (snd (validateConfig vv m)) (PipelinesConfig_Name pc) = Some True"
  using assms by (simp_all add: validateConfig_def Let_def split: option.splits prod.splits)

lemma visit_env_collision:
  assumes "Env_Name env \<in> dom (configNames vv)"
  shows "Errorf (''The environment '' @ Env_Name env @ '' cannot have the same name as the config names'')
           \<in> set (errs (snd (visit vv (EnvNode env))))"
  using assms by (auto simp add: Environment_result)

lemma walk_env_collision:
  assumes "EnvNode env \<in> set ns" and "Env_Name env \<in> dom (configNames vv)"
  shows "Errorf (''The environment '' @ Env_Name env @ '' cannot have the same name as the config names'')
           \<in> set (errs (snd (walkNodes ns vv)))"
proof -
  from assms(1) obtain pre post where ns: "ns = pre @ EnvNode env # post"
    by (auto dest: split_list)
  let ?v = "snd (walkNodes pre vv)"
  have "Env_Name env \<in> dom (configNames ?v)"
    using assms(2) by (simp add: walkNodes_configNames)
  then have "Errorf (''The environment '' @ Env_Name env @ '' cannot have the same name as the config names'')
           \<in> set (errs (snd (visit ?v (EnvNode env))))"
    by (rule visit_env_collision)
  then show ?thesis
    unfolding ns walkNodes_append walkNodes_Cons by (rule walkNodes_errs_mono)
qed

lemma EnvNode_nodesOf: "env \<in> set (Environments m) \<Longrightarrow> EnvNode env \<in> set (nodesOf m)"
  by (auto simp add: nodesOf_def)

lemma visit_env_registers: "envPath env \<in> dom (envNames (snd (visit vv (EnvNode env))))"
  by (auto simp add: Environment_result)

lemma visit_env_duplicate:
  assumes "envPath env \<in> dom (envNames vv)"
  shows "duplicateFieldsError [Env_Name env] [envPath env] \<in> set (errs (snd (visit vv (EnvNode env))))"
  using assms by (auto simp add: Environment_result)

lemma walk_env_duplicate:
  assumes "envPath e1 = envPath e2"
  shows "duplicateFieldsError [Env_Name e2] [envPath e2]
           \<in> set (errs (snd (walkNodes (A @ EnvNode e1 # B @ EnvNode e2 # C) vv)))"
proof -
  let ?v1 = "snd (visit (snd (walkNodes A vv)) (EnvNode e1))"
  let ?v2 = "snd (walkNodes B ?v1)"
  have "envPath e1 \<in> dom (envNames ?v1)" by (rule visit_env_registers)
  then have "envPath e1 \<in> dom (envNames ?v2)" by (rule walkNodes_envNames_mono)
  then have "envPath e2 \<in> dom (envNames ?v2)" using assms by simp
  then have "duplicateFieldsError [Env_Name e2] [envPath e2] \<in> set (errs (snd (visit ?v2 (EnvNode e2))))"
    by (rule visit_env_duplicate)
  then show ?thesis
    unfolding walkNodes_append walkNodes_Cons by (rule walkNodes_errs_mono)
qed

lemma nodesOf_two_envs:
  assumes "Environments m = xs @ e1 # ys @ e2 # zs"
  shows "\<exists>A B C. nodesOf m = A @ EnvNode e1 # B @ EnvNode e2 # C"
proof -
  let ?f = "\<lambda>env. EnvNode env # map (AppNode env) (Apps env) @ map (SvcNode env) (Services env)"
  have "nodesOf m = concat (map ?f xs) @ EnvNode e1 #
          ((map (AppNode e1) (Apps e1) @ map (SvcNode e1) (Services e1)) @ concat (map ?f ys)) @ EnvNode e2 #
          ((map (AppNode e2) (Apps e2) @ map (SvcNode e2) (Services e2)) @ concat (map ?f zs))"
    by (simp add: nodesOf_def assms)
  then show ?thesis by blast
qed

lemma list_two_positions:
  assumes "i < j" and "j < length xs"
  shows "\<exists>as bs cs. xs = as @ xs ! i # bs @ xs ! j # cs"
proof -
  from assms have i: "i < length xs" by simp
  have 1: "xs = take i xs @ xs ! i # drop (Suc i) xs"
    using i by (rule id_take_nth_drop)
  let ?r = "drop (Suc i) xs"
  from assms have j': "j - Suc i < length ?r" by simp
  have 2: "?r = take (j - Suc i) ?r @ ?r ! (j - Suc i) # drop (Suc (j - Suc i)) ?r"
    using j' by (rule id_take_nth_drop)
  have 3: "?r ! (j - Suc i) = xs ! j" using assms by simp
  have "xs = take i xs @ xs ! i # take (j - Suc i) ?r @ xs ! j # drop (Suc (j - Suc i)) ?r"
    using 1 2 3 by metis
  then show ?thesis by blast
qed

lemma validateName_list:
  "(case validateName n p of None \<Rightarrow> [] | Some e \<Rightarrow> [e]) =
     map (\<lambda>d. invalidNameError n d [p]) (take 1 (NameIsDNS1035Label n True))"
  by (simp add: validateName_def split: list.splits)

lemma validateConfigRepo_list:
  "validateConfigRepo repo p =
     (if URL repo = [] \<and> Path repo = [] then [missingFieldsError [''url'', ''path''] [p]]
      else if URL repo = [] then [missingFieldsError [''url''] [p]]
      else if Path repo = [] then [missingFieldsError [''path''] [p]]
      else [])"
  by (simp add: validateConfigRepo_def Let_def)

lemma Application_appended:
  "appended vv (snd (validateVisitor_Application vv env app)) =
        (if appNames vv (appPath env app) \<noteq> None
         then [duplicateFieldsError [App_Name app] [appPath env app]] else []) @
        map (\<lambda>d. invalidNameError (App_Name app) d [appPath env app]) (take 1 (NameIsDNS1035Label (App_Name app) True)) @
        (if ServiceRefs app = [] \<and> ConfigRepo app = None
         then [missingFieldsError [''services'', ''config_repo''] [appPath env app]] else []) @
        (if ServiceRefs app \<noteq> [] \<and> ConfigRepo app \<noteq> None
         then [ErrMultipleOneOf [yamlJoin (appPath env app) [''services''],
                                 yamlJoin (appPath env app) [''config_repo'']]] else []) @
        (case ConfigRepo app of None \<Rightarrow> []
         | Some repo \<Rightarrow> validateConfigRepo repo (yamlJoin (appPath env app) [''config_repo''])) @
        map (\<lambda>r. missingServiceRefError r (App_Name app) [appPath env app])
            (filter (\<lambda>r. serviceNames vv r = None) (ServiceRefs app))"
  by (simp add: appended_def Application_result validateName_list)

lemma filter_map_False: "(\<And>x. \<not> P (f x)) \<Longrightarrow> filter P (map f xs) = []"
  by (induction xs) simp_all

lemma quote_inj: "quote r = quote r' \<longleftrightarrow> r = r'"
  by (simp add: quote_def)

lemma missingServiceRefError_inj:
  "missingServiceRefError r a ps = missingServiceRefError r' a ps' \<longleftrightarrow> r = r' \<and> ps = ps'"
  by (auto simp add: missingServiceRefError_def quote_def)

lemma Application_missing_ref_iff:
  "missingServiceRefError r (App_Name app) [appPath env app]
       \<in> set (appended vv (snd (validateVisitor_Application vv env app))) \<longleftrightarrow>
     r \<in> set (ServiceRefs app) \<and> r \<notin> dom (serviceNames vv)"
  unfolding Application_appended validateConfigRepo_list
  by (auto simp add: quote_inj domIff invalidNameError_def missingFieldsError_def
        duplicateFieldsError_def ErrMultipleOneOf_def missingServiceRefError_def split: option.splits if_splits)

lemma visit_appended_mem:
  "e \<in> set (appended vv (snd (visit vv n))) \<Longrightarrow> e \<in> set (errs (snd (visit vv n)))"
  using visit_errs_ex [of vv n] by (auto simp add: appended_def)

lemma walk_reports_visit:
  assumes "e \<in> set (appended (snd (walkNodes pre vv)) (snd (visit (snd (walkNodes pre vv)) n)))"
  shows "e \<in> set (errs (snd (walkNodes (pre @ n # post) vv)))"
  unfolding walkNodes_append walkNodes_Cons
  using assms by (intro walkNodes_errs_mono visit_appended_mem)

lemma afterConfig_serviceNames: "serviceNames (afterConfig m) = Map.empty"
  by (simp add: afterConfig_def validateConfig_def newVisitor_def Let_def split: option.splits prod.splits)

lemma visitorAt_serviceNames:
  "r \<in> dom (serviceNames (visitorAt m ns)) \<longleftrightarrow>
     (\<exists>env svc. SvcNode env svc \<in> set ns \<and> (r = Svc_Name svc \<or> r = svcPath env svc))"
  by (simp add: visitorAt_def walkNodes_serviceNames afterConfig_serviceNames)

lemma members_visitorAt:
  assumes "nodesOf m = pre @ n # post"
    and "e \<in> set (appended (visitorAt m pre) (snd (visit (visitorAt m pre) n)))"
  shows "e \<in> set (members (Validate ks m))"
proof -
  have "e \<in> set (errs (snd (walkNodes (pre @ n # post) (afterConfig m))))"
    using assms(2) unfolding visitorAt_def by (rule walk_reports_visit)
  then show ?thesis
    by (simp add: members_Validate afterWalk_visitorAt visitorAt_def assms(1))
qed

lemma registered_ref_passes:
  "r \<in> dom (serviceNames vv) \<Longrightarrow>
     missingServiceRefError r (App_Name app) [appPath env app]
       \<notin> set (appended vv (snd (validateVisitor_Application vv env app)))"
  by (simp add: Application_missing_ref_iff)

lemma Service_serviceNames_dom:
  "dom (serviceNames (snd (validateVisitor_Service vv env svc))) =
     dom (serviceNames vv) \<union> {svcPath env svc, Svc_Name svc}"
  by (auto simp add: Service_result)

lemma matchDNS1035Label_grammar: "matchDNS1035Label s \<longleftrightarrow> dns1035Grammar s"
proof (cases s)
  case Nil
  then show ?thesis by (simp add: dns1035Grammar_def)
next
  case (Cons c cs)
  show ?thesis
  proof (cases cs rule: rev_cases)
    case Nil
    with Cons show ?thesis by (simp add: dns1035Grammar_def)
  next
    case (snoc mid d)
    with Cons show ?thesis
      by (auto simp add: dns1035Grammar_def isLabelChar_def)
  qed
qed

lemma NameIsDNS1035Label_Nil:
  "NameIsDNS1035Label name b = [] \<longleftrightarrow> matchDNS1035Label name \<and> length name \<le> 63"
  by (auto simp add: NameIsDNS1035Label_def DNS1035LabelMaxLength_def)

lemma sourcePaths_Cons: "sourcePaths url (n # ns) = sourcePaths url [n] @ sourcePaths url ns"
  by (simp add: sourcePaths_def)

lemma visit_serviceURLs:
  "serviceURLs (snd (visit vv n)) url =
     (if url \<noteq> [] \<and> sourcePaths url [n] \<noteq> []
      then Some ((case serviceURLs vv url of Some ps \<Rightarrow> ps | None \<Rightarrow> []) @ sourcePaths url [n])
      else serviceURLs vv url)"
  by (cases n) (auto simp add: Environment_result Application_result Service_result sourcePaths_def)

lemma walkNodes_serviceURLs:
  "serviceURLs (snd (walkNodes ns vv)) url =
     (if url \<noteq> [] \<and> sourcePaths url ns \<noteq> []
      then Some ((case serviceURLs vv url of Some ps \<Rightarrow> ps | None \<Rightarrow> []) @ sourcePaths url ns)
      else serviceURLs vv url)"
proof (induction ns arbitrary: vv)
  case Nil
  show ?case by (simp add: sourcePaths_def)
next
  case (Cons n ns)
  show ?case
    unfolding walkNodes_Cons Cons.IH visit_serviceURLs sourcePaths_Cons [of url n ns]
    by simp
qed

lemma afterConfig_serviceURLs: "serviceURLs (afterConfig m) = Map.empty"
  by (simp add: afterConfig_def validateConfig_def newVisitor_def Let_def split: option.splits prod.splits)

lemma afterWalk_serviceURLs:
  "serviceURLs (afterWalk m) url =
     (if url \<noteq> [] \<and> sourcePaths url (nodesOf m) \<noteq> [] then Some (sourcePaths url (nodesOf m)) else None)"
  by (simp add: afterWalk_visitorAt visitorAt_def walkNodes_serviceURLs afterConfig_serviceURLs)














lemma dom_afterWalk_serviceURLs:
  "dom (serviceURLs (afterWalk m)) = {u. u \<noteq> [] \<and> sourcePaths u (nodesOf m) \<noteq> []}"
  by (auto simp add: afterWalk_serviceURLs split: if_splits)


lemma rangeOrder_mset: "rangeOrder m ks1 \<Longrightarrow> rangeOrder m ks2 \<Longrightarrow> mset ks1 = mset ks2"
  by (simp add: rangeOrder_def set_eq_iff_mset_eq_distinct [symmetric])

lemma mset_validateServiceURLs:
  assumes "mset ks1 = mset ks2"
  shows "mset (validateServiceURLs ks1 vv) = mset (validateServiceURLs ks2 vv)"
proof -
  let ?f = "\<lambda>url. case serviceURLs vv url of
                          None \<Rightarrow> []
                        | Some paths \<Rightarrow> if length paths > 1 then [duplicateSourceError url paths] else []"
  have "mset (validateServiceURLs ks vv) = sum_mset (image_mset (\<lambda>k. mset (?f k)) (mset ks))" for ks
    by (induction ks) (simp_all add: validateServiceURLs_def)
  with assms show ?thesis by simp
qed

lemma twoSourcesManifest_rangeOrder:
  "rangeOrder (serviceURLs (afterWalk twoSourcesManifest)) [sourceOne, sourceTwo]"
  "rangeOrder (serviceURLs (afterWalk twoSourcesManifest)) [sourceTwo, sourceOne]"
  by (auto simp add: rangeOrder_def dom_afterWalk_serviceURLs twoSourcesManifest_def nodesOf_def
        sourcePaths_def sourceOne_def sourceTwo_def split: if_splits)

lemma missingServiceRefError_literal:
  "missingServiceRefError r (App_Name app) [appPath env app] =
     FieldError (''missing service '' @ [CHR 0x22] @ r @ [CHR 0x22] @ '' in app '' @ [CHR 0x22] @ App_Name app @ [CHR 0x22])
       [] [''environments.'' @ yamlPath (Env_Name env) @ ''.apps.'' @ yamlPath (App_Name app)]"
  by (simp add: missingServiceRefError_def quote_def PathForApplication_def PathForEnvironment_def yamlPath_def)

lemma duplicateFieldsError_env_literal:
  "duplicateFieldsError [Env_Name env] [envPath env] =
     FieldError (''duplicate field(s) '' @ [CHR 0x22] @ Env_Name env @ [CHR 0x22]) []
       [''environments.'' @ yamlPath (Env_Name env)]"
  by (simp add: duplicateFieldsError_def addQuotes_def quote_def PathForEnvironment_def yamlPath_def)

section \<open>The claims\<close>

text \<open>
  C7. \<open>Validate\<close> returns nil exactly when the config check, the walk and the deferred
  source-URL check have accumulated no error; a manifest with no environment and no
  Config block validates.
\<close>

theorem Validate_success_iff:
  "(Validate ks m = None \<longleftrightarrow>
      fst (validateConfig newVisitor m) = [] \<and> appended (afterConfig m) (afterWalk m) = [] \<and>
      validateServiceURLs ks (afterWalk m) = []) \<and>
   (Config m = None \<and> Environments m = [] \<longrightarrow> Validate ks m = None)"
proof
  show "Validate ks m = None \<longleftrightarrow>
      fst (validateConfig newVisitor m) = [] \<and> appended (afterConfig m) (afterWalk m) = [] \<and>
      validateServiceURLs ks (afterWalk m) = []"
    by (simp add: Validate_afterWalk afterWalk_errs)
next
  show "Config m = None \<and> Environments m = [] \<longrightarrow> Validate ks m = None"
  proof
    assume h: "Config m = None \<and> Environments m = []"
    then have n: "nodesOf m = []" by (simp add: nodesOf_def)
    from h have c: "afterConfig m = newVisitor"
      by (simp add: afterConfig_def validateConfig_def newVisitor_def)
    have w: "afterWalk m = newVisitor"
      by (simp add: afterWalk_visitorAt visitorAt_def n c)
    have "validateServiceURLs ks newVisitor = []"
      by (simp add: validateServiceURLs_def newVisitor_def)
    with w show "Validate ks m = None"
      by (simp add: Validate_afterWalk newVisitor_def)
  qed
qed

theorem Validate_success_iff_witness:
  "Config emptyManifest = None \<and> Environments emptyManifest = [] \<and> Validate [] emptyManifest = None"
  using Validate_success_iff [of "[]" emptyManifest] by (simp add: emptyManifest_def)

text \<open>
  C10. The config check registers the namespace of the ArgoCD config and the name of the
  pipeline config into the config-name registry whatever the name validation says, and
  every environment that bears one of these names is reported with the collision error.
\<close>

theorem config_names_registered_and_collide:
  assumes "Config m = Some cfg"
  shows "(\<forall>argo. ArgoCDConfig cfg = Some argo \<longrightarrow>
            configNames (snd (validateConfig vv m)) (ArgoCD_Namespace argo) = Some True) \<and>
         (\<forall>pc. PipelineConfig cfg = Some pc \<longrightarrow>
            configNames (snd (validateConfig vv m)) (PipelinesConfig_Name pc) = Some True) \<and>
         (\<forall>env \<in> set (Environments m).
            (\<exists>argo. ArgoCDConfig cfg = Some argo \<and> Env_Name env = ArgoCD_Namespace argo) \<or>
            (\<exists>pc. PipelineConfig cfg = Some pc \<and> Env_Name env = PipelinesConfig_Name pc) \<longrightarrow>
            Errorf (''The environment '' @ Env_Name env @ '' cannot have the same name as the config names'')
              \<in> set (members (Validate ks m)))"
proof (intro conjI allI impI ballI)
  fix argo assume "ArgoCDConfig cfg = Some argo"
  with assms show "configNames (snd (validateConfig vv m)) (ArgoCD_Namespace argo) = Some True"
    by (rule validateConfig_registers(1))
next
  fix pc assume "PipelineConfig cfg = Some pc"
  with assms show "configNames (snd (validateConfig vv m)) (PipelinesConfig_Name pc) = Some True"
    by (rule validateConfig_registers(2))
next
  fix env
  assume env: "env \<in> set (Environments m)"
    and name: "(\<exists>argo. ArgoCDConfig cfg = Some argo \<and> Env_Name env = ArgoCD_Namespace argo) \<or>
               (\<exists>pc. PipelineConfig cfg = Some pc \<and> Env_Name env = PipelinesConfig_Name pc)"
  from name have "configNames (snd (validateConfig newVisitor m)) (Env_Name env) = Some True"
    using validateConfig_registers [OF assms, of _ newVisitor] by auto
  then have "Env_Name env \<in> dom (configNames (afterConfig m))"
    by (auto simp add: afterConfig_configNames)
  with EnvNode_nodesOf [OF env]
  have "Errorf (''The environment '' @ Env_Name env @ '' cannot have the same name as the config names'')
          \<in> set (errs (snd (walkNodes (nodesOf m) (afterConfig m))))"
    by (rule walk_env_collision)
  then show "Errorf (''The environment '' @ Env_Name env @ '' cannot have the same name as the config names'')
          \<in> set (members (Validate ks m))"
    by (simp add: members_Validate afterWalk_visitorAt visitorAt_def)
qed

theorem config_names_registered_and_collide_witness:
  "validateName ''Argo_CD'' ''config.Argo_CD'' \<noteq> None \<and>
   configNames (snd (validateConfig newVisitor collidingManifest)) ''Argo_CD'' = Some True \<and>
   Errorf ''The environment Argo_CD cannot have the same name as the config names''
     \<in> set (members (Validate [] collidingManifest))"
  using config_names_registered_and_collide
    [of collidingManifest "\<lparr>ArgoCDConfig = Some \<lparr>ArgoCD_Namespace = ''Argo_CD''\<rparr>, PipelineConfig = None\<rparr>"
        newVisitor "[]"]
  by (simp add: collidingManifest_def validateName_def NameIsDNS1035Label_def isLower_def
        DNS1035LabelMaxLength_def)

text \<open>
  C4. Among the errors that the visit of an application appends: with neither service
  refs nor a config repo, one missing-fields error for "services" and "config_repo" and
  no multiple-one-of error; with both, one multiple-one-of error and no such
  missing-fields error; never the two together.
\<close>

theorem application_oneOf_errors:
  "(let new = appended vv (snd (validateVisitor_Application vv env app));
        missing = missingFieldsError [''services'', ''config_repo''] [appPath env app];
        both = ErrMultipleOneOf [yamlJoin (appPath env app) [''services''],
                                 yamlJoin (appPath env app) [''config_repo'']]
    in (ServiceRefs app = [] \<and> ConfigRepo app = None \<longrightarrow>
          filter (\<lambda>e. Message e = Message missing) new = [missing] \<and>
          filter (\<lambda>e. Message e = Message both) new = []) \<and>
       (ServiceRefs app \<noteq> [] \<and> ConfigRepo app \<noteq> None \<longrightarrow>
          filter (\<lambda>e. Message e = Message both) new = [both] \<and>
          filter (\<lambda>e. Message e = Message missing) new = []) \<and>
       \<not> (missing \<in> set new \<and> both \<in> set new))"
proof -
  have 1: "filter (\<lambda>e. Message e = Message (missingFieldsError [''services'', ''config_repo''] [appPath env app]))
             (appended vv (snd (validateVisitor_Application vv env app))) =
           (if ServiceRefs app = [] \<and> ConfigRepo app = None
            then [missingFieldsError [''services'', ''config_repo''] [appPath env app]] else [])"
    unfolding Application_appended validateConfigRepo_list
    by (simp add: filter_map_False invalidNameError_def missingFieldsError_def duplicateFieldsError_def
          missingServiceRefError_def ErrMultipleOneOf_def addQuotes_def quote_def split: option.splits)
  have 2: "filter (\<lambda>e. Message e = Message (ErrMultipleOneOf [yamlJoin (appPath env app) [''services''],
                                 yamlJoin (appPath env app) [''config_repo'']]))
             (appended vv (snd (validateVisitor_Application vv env app))) =
           (if ServiceRefs app \<noteq> [] \<and> ConfigRepo app \<noteq> None
            then [ErrMultipleOneOf [yamlJoin (appPath env app) [''services''],
                                 yamlJoin (appPath env app) [''config_repo'']]] else [])"
    unfolding Application_appended validateConfigRepo_list
    by (simp add: filter_map_False invalidNameError_def missingFieldsError_def duplicateFieldsError_def
          missingServiceRefError_def ErrMultipleOneOf_def addQuotes_def quote_def split: option.splits)
  have 3: "\<not> (missingFieldsError [''services'', ''config_repo''] [appPath env app]
                \<in> set (appended vv (snd (validateVisitor_Application vv env app))) \<and>
              ErrMultipleOneOf [yamlJoin (appPath env app) [''services''],
                                 yamlJoin (appPath env app) [''config_repo'']]
                \<in> set (appended vv (snd (validateVisitor_Application vv env app))))"
  proof
    assume a: "missingFieldsError [''services'', ''config_repo''] [appPath env app]
                \<in> set (appended vv (snd (validateVisitor_Application vv env app))) \<and>
              ErrMultipleOneOf [yamlJoin (appPath env app) [''services''],
                                 yamlJoin (appPath env app) [''config_repo'']]
                \<in> set (appended vv (snd (validateVisitor_Application vv env app)))"
    then have "missingFieldsError [''services'', ''config_repo''] [appPath env app]
        \<in> set (filter (\<lambda>e. Message e = Message (missingFieldsError [''services'', ''config_repo''] [appPath env app]))
             (appended vv (snd (validateVisitor_Application vv env app))))"
      by simp
    then have n: "ServiceRefs app = [] \<and> ConfigRepo app = None"
      unfolding 1 by (simp split: if_splits)
    from a have "ErrMultipleOneOf [yamlJoin (appPath env app) [''services''],
                                 yamlJoin (appPath env app) [''config_repo'']]
        \<in> set (filter (\<lambda>e. Message e = Message (ErrMultipleOneOf [yamlJoin (appPath env app) [''services''],
                                 yamlJoin (appPath env app) [''config_repo'']]))
             (appended vv (snd (validateVisitor_Application vv env app))))"
      by simp
    then have "ServiceRefs app \<noteq> [] \<and> ConfigRepo app \<noteq> None"
      unfolding 2 by (simp split: if_splits)
    with n show False by simp
  qed
  show ?thesis
    unfolding Let_def using 1 2 3 by simp
qed

theorem application_oneOf_errors_witness:
  "ServiceRefs bareApp = [] \<and> ConfigRepo bareApp = None \<and>
   filter (\<lambda>e. Message e = Message (missingFieldsError [''services'', ''config_repo''] [''environments.dev.apps.app1'']))
     (appended newVisitor (snd (validateVisitor_Application newVisitor devEnv bareApp))) =
     [missingFieldsError [''services'', ''config_repo''] [''environments.dev.apps.app1'']] \<and>
   ServiceRefs fullApp \<noteq> [] \<and> ConfigRepo fullApp \<noteq> None \<and>
   filter (\<lambda>e. Message e = Message (ErrMultipleOneOf [''environments.dev.apps.app2.services'', ''environments.dev.apps.app2.config_repo'']))
     (appended newVisitor (snd (validateVisitor_Application newVisitor devEnv fullApp))) =
     [ErrMultipleOneOf [''environments.dev.apps.app2.services'', ''environments.dev.apps.app2.config_repo'']]"
  using application_oneOf_errors [of newVisitor devEnv bareApp]
        application_oneOf_errors [of newVisitor devEnv fullApp]
  by (simp add: Let_def devEnv_def bareApp_def fullApp_def PathForApplication_def PathForEnvironment_def
        yamlPath_def yamlJoin_def)

text \<open>
  C6. The visit of a service ends by registering the service's name, whatever its checks
  found; an application visited later does not get a missing-service error for a ref to
  that name.
\<close>

theorem service_always_registered:
  "serviceNames (snd (validateVisitor_Service vv env svc)) (Svc_Name svc) = Some True \<and>
   (nodesOf m = pre @ AppNode env' app # post \<and> SvcNode env svc \<in> set pre \<longrightarrow>
      Svc_Name svc \<in> dom (serviceNames (visitorAt m pre)) \<and>
      missingServiceRefError (Svc_Name svc) (App_Name app) [appPath env' app]
        \<notin> set (appended (visitorAt m pre) (snd (validateVisitor_Application (visitorAt m pre) env' app))))"
proof (intro conjI impI)
  show "serviceNames (snd (validateVisitor_Service vv env svc)) (Svc_Name svc) = Some True"
    by (simp add: Service_result)
next
  assume a: "nodesOf m = pre @ AppNode env' app # post \<and> SvcNode env svc \<in> set pre"
  then show r: "Svc_Name svc \<in> dom (serviceNames (visitorAt m pre))"
    unfolding visitorAt_serviceNames by blast
  then show "missingServiceRefError (Svc_Name svc) (App_Name app) [appPath env' app]
        \<notin> set (appended (visitorAt m pre) (snd (validateVisitor_Application (visitorAt m pre) env' app)))"
    by (rule registered_ref_passes)
qed

theorem service_always_registered_witness:
  "validateName (Svc_Name crossSvc) (svcPath envOne crossSvc) \<noteq> None \<and>
   nodesOf crossManifest =
     [EnvNode envOne, SvcNode envOne crossSvc, EnvNode envTwo] @ AppNode envTwo nameApp # [AppNode envTwo pathApp] \<and>
   SvcNode envOne crossSvc \<in> set [EnvNode envOne, SvcNode envOne crossSvc, EnvNode envTwo] \<and>
   Svc_Name crossSvc \<in> set (ServiceRefs nameApp) \<and>
   missingServiceRefError ''Bad_Svc'' ''app1'' [''environments.two.apps.app1'']
     \<notin> set (appended (visitorAt crossManifest [EnvNode envOne, SvcNode envOne crossSvc, EnvNode envTwo])
               (snd (validateVisitor_Application
                      (visitorAt crossManifest [EnvNode envOne, SvcNode envOne crossSvc, EnvNode envTwo])
                      envTwo nameApp)))"
  using service_always_registered
    [of newVisitor envOne crossSvc crossManifest "[EnvNode envOne, SvcNode envOne crossSvc, EnvNode envTwo]"
        envTwo nameApp "[AppNode envTwo pathApp]"]
  by (simp add: nodesOf_def crossManifest_def envOne_def envTwo_def nameApp_def pathApp_def crossSvc_def
        PathForApplication_def PathForEnvironment_def yamlPath_def validateName_def NameIsDNS1035Label_def
        isLower_def DNS1035LabelMaxLength_def)

text \<open>
  C9. The service-name registry receives both the yaml path of a visited service and its
  bare name; a ref of a later application that equals the yaml path of a service visited
  before passes the missing-service check.
\<close>

theorem path_entry_satisfies_reference:
  "dom (serviceNames (snd (validateVisitor_Service vv env svc))) =
     dom (serviceNames vv) \<union> {svcPath env svc, Svc_Name svc} \<and>
   (nodesOf m = pre @ AppNode env' app # post \<and> SvcNode env svc \<in> set pre \<longrightarrow>
      svcPath env svc \<in> dom (serviceNames (visitorAt m pre)) \<and>
      missingServiceRefError (svcPath env svc) (App_Name app) [appPath env' app]
        \<notin> set (appended (visitorAt m pre) (snd (validateVisitor_Application (visitorAt m pre) env' app))))"
proof (intro conjI impI)
  show "dom (serviceNames (snd (validateVisitor_Service vv env svc))) =
     dom (serviceNames vv) \<union> {svcPath env svc, Svc_Name svc}"
    by (rule Service_serviceNames_dom)
next
  assume a: "nodesOf m = pre @ AppNode env' app # post \<and> SvcNode env svc \<in> set pre"
  then show r: "svcPath env svc \<in> dom (serviceNames (visitorAt m pre))"
    unfolding visitorAt_serviceNames by blast
  then show "missingServiceRefError (svcPath env svc) (App_Name app) [appPath env' app]
        \<notin> set (appended (visitorAt m pre) (snd (validateVisitor_Application (visitorAt m pre) env' app)))"
    by (rule registered_ref_passes)
qed

theorem path_entry_satisfies_reference_witness:
  "nodesOf crossManifest =
     [EnvNode envOne, SvcNode envOne crossSvc, EnvNode envTwo, AppNode envTwo nameApp] @ AppNode envTwo pathApp # [] \<and>
   SvcNode envOne crossSvc \<in> set [EnvNode envOne, SvcNode envOne crossSvc, EnvNode envTwo, AppNode envTwo nameApp] \<and>
   svcPath envOne crossSvc = ''environments.one.services.Bad_Svc'' \<and>
   Svc_Name crossSvc \<noteq> ''environments.one.services.Bad_Svc'' \<and>
   ''environments.one.services.Bad_Svc'' \<in> set (ServiceRefs pathApp) \<and>
   missingServiceRefError ''environments.one.services.Bad_Svc'' ''app2'' [''environments.two.apps.app2'']
     \<notin> set (appended (visitorAt crossManifest [EnvNode envOne, SvcNode envOne crossSvc, EnvNode envTwo, AppNode envTwo nameApp])
               (snd (validateVisitor_Application
                      (visitorAt crossManifest [EnvNode envOne, SvcNode envOne crossSvc, EnvNode envTwo, AppNode envTwo nameApp])
                      envTwo pathApp)))"
  using path_entry_satisfies_reference
    [of newVisitor envOne crossSvc crossManifest
        "[EnvNode envOne, SvcNode envOne crossSvc, EnvNode envTwo, AppNode envTwo nameApp]"
        envTwo pathApp "[]"]
  by (simp add: nodesOf_def crossManifest_def envOne_def envTwo_def nameApp_def pathApp_def crossSvc_def
        PathForApplication_def PathForEnvironment_def PathForService_def yamlPath_def)

text \<open>
  C8. The name rule accepts exactly the strings of the grammar
  \<open>[a-z]([-a-z0-9]*[a-z0-9])?\<close> of at most 63 characters: "a" and "abc-123" pass, the
  empty string, "-abc" and every string of 64 characters fail; for a rejected name
  \<open>validateName\<close> gives the invalid-name field error with the quoted name in the message,
  the first reason of the rule as details, and the path.
\<close>

theorem name_rule:
  "(validateName name path = None \<longleftrightarrow> dns1035Grammar name \<and> length name \<le> 63) \<and>
   validateName ''a'' path = None \<and> validateName ''abc-123'' path = None \<and>
   validateName [] path \<noteq> None \<and> validateName ''-abc'' path \<noteq> None \<and>
   (length name = 64 \<longrightarrow> validateName name path \<noteq> None) \<and>
   (\<not> (dns1035Grammar name \<and> length name \<le> 63) \<longrightarrow>
      (\<exists>reason rest. NameIsDNS1035Label name True = reason # rest \<and>
         validateName name path = Some (FieldError (''invalid name '' @ quote name) reason [path])))"
proof -
  have "validateName n p = None \<longleftrightarrow> NameIsDNS1035Label n True = []" for n p
    by (simp add: validateName_def split: list.splits)
  then have iff: "validateName n p = None \<longleftrightarrow> dns1035Grammar n \<and> length n \<le> 63" for n p
    by (simp add: NameIsDNS1035Label_Nil matchDNS1035Label_grammar)
  have a: "validateName ''a'' path = None"
    by (simp add: validateName_def NameIsDNS1035Label_def DNS1035LabelMaxLength_def isLower_def)
  have b: "validateName ''abc-123'' path = None"
    by (simp add: validateName_def NameIsDNS1035Label_def DNS1035LabelMaxLength_def isLower_def
          isDigit_def isLabelChar_def)
  have c: "validateName [] path \<noteq> None"
    by (simp add: validateName_def NameIsDNS1035Label_def DNS1035LabelMaxLength_def)
  have d: "validateName ''-abc'' path \<noteq> None"
    by (simp add: validateName_def NameIsDNS1035Label_def DNS1035LabelMaxLength_def isLower_def)
  have e: "length name = 64 \<longrightarrow> validateName name path \<noteq> None"
    by (simp add: iff)
  have f: "\<not> (dns1035Grammar name \<and> length name \<le> 63) \<longrightarrow>
      (\<exists>reason rest. NameIsDNS1035Label name True = reason # rest \<and>
         validateName name path = Some (FieldError (''invalid name '' @ quote name) reason [path]))"
  proof
    assume "\<not> (dns1035Grammar name \<and> length name \<le> 63)"
    then have "NameIsDNS1035Label name True \<noteq> []"
      by (simp add: NameIsDNS1035Label_Nil matchDNS1035Label_grammar)
    then obtain reason rest where r: "NameIsDNS1035Label name True = reason # rest"
      by (cases "NameIsDNS1035Label name True") auto
    then have "validateName name path = Some (FieldError (''invalid name '' @ quote name) reason [path])"
      by (simp add: validateName_def invalidNameError_def)
    with r show "\<exists>reason rest. NameIsDNS1035Label name True = reason # rest \<and>
         validateName name path = Some (FieldError (''invalid name '' @ quote name) reason [path])"
      by blast
  qed
  from iff [of name path] a b c d e f show ?thesis by blast
qed

theorem name_rule_witness:
  "length (replicate 64 (CHR ''a'')) = 64 \<and>
   validateName (replicate 64 (CHR ''a'')) ''environments.x'' \<noteq> None \<and>
   \<not> (dns1035Grammar ''-abc'' \<and> length ''-abc'' \<le> 63) \<and>
   validateName ''-abc'' ''environments.-abc'' =
     Some (FieldError (''invalid name '' @ quote ''-abc'') dns1035LabelErrMsg [''environments.-abc''])"
  using name_rule [of "replicate 64 (CHR ''a'')" "''environments.x''"]
        name_rule [of "''-abc''" "''environments.-abc''"]
  by (auto simp add: dns1035Grammar_def isLower_def NameIsDNS1035Label_def DNS1035LabelMaxLength_def)



text \<open>
  C2, as amended. Two runs of \<open>Validate\<close> on one manifest may range over the map
  \<open>serviceURLs\<close> in different orders. They report the same errors with the same
  multiplicities, with the errors of the config check and of the walk first, in the same
  order; the duplicate-source errors follow in the order of the range, and one run
  succeeds exactly when the other does.
\<close>

theorem Validate_same_members:
  assumes "rangeOrder (serviceURLs (afterWalk m)) ks1"
    and "rangeOrder (serviceURLs (afterWalk m)) ks2"
  shows "mset (members (Validate ks1 m)) = mset (members (Validate ks2 m)) \<and>
         members (Validate ks1 m) = errs (afterWalk m) @ validateServiceURLs ks1 (afterWalk m) \<and>
         members (Validate ks2 m) = errs (afterWalk m) @ validateServiceURLs ks2 (afterWalk m) \<and>
         (Validate ks1 m = None \<longleftrightarrow> Validate ks2 m = None)"
proof -
  have k: "mset ks1 = mset ks2" using assms by (rule rangeOrder_mset)
  then have d: "mset (validateServiceURLs ks1 (afterWalk m)) = mset (validateServiceURLs ks2 (afterWalk m))"
    by (rule mset_validateServiceURLs)
  then have "validateServiceURLs ks1 (afterWalk m) = [] \<longleftrightarrow> validateServiceURLs ks2 (afterWalk m) = []"
    by (metis mset_zero_iff)
  then have "Validate ks1 m = None \<longleftrightarrow> Validate ks2 m = None"
    by (simp add: Validate_afterWalk)
  with d show ?thesis by (simp add: members_Validate)
qed

theorem Validate_same_members_witness:
  "rangeOrder (serviceURLs (afterWalk twoSourcesManifest)) [sourceOne, sourceTwo] \<and>
   rangeOrder (serviceURLs (afterWalk twoSourcesManifest)) [sourceTwo, sourceOne] \<and>
   mset (members (Validate [sourceOne, sourceTwo] twoSourcesManifest)) =
   mset (members (Validate [sourceTwo, sourceOne] twoSourcesManifest))"
  using Validate_same_members [of twoSourcesManifest "[sourceOne, sourceTwo]" "[sourceTwo, sourceOne]"]
    twoSourcesManifest_rangeOrder
  by blast

text \<open>
  C2, as stated, fails: with two duplicated source URLs the two range orders of the map
  give aggregated errors that differ in the order of the duplicate-source errors.
\<close>

theorem Validate_order_counterexample:
  "rangeOrder (serviceURLs (afterWalk twoSourcesManifest)) [sourceOne, sourceTwo] \<and>
   rangeOrder (serviceURLs (afterWalk twoSourcesManifest)) [sourceTwo, sourceOne] \<and>
   Validate [sourceOne, sourceTwo] twoSourcesManifest \<noteq> Validate [sourceTwo, sourceOne] twoSourcesManifest"
proof -
  have 1: "serviceURLs (afterWalk twoSourcesManifest) sourceOne =
             Some [''environments.dev.services.svc-a'', ''environments.dev.services.svc-b'']"
    unfolding afterWalk_serviceURLs
    by (simp add: twoSourcesManifest_def nodesOf_def sourcePaths_def PathForService_def
          PathForEnvironment_def yamlPath_def) (simp add: sourceOne_def sourceTwo_def)
  have 2: "serviceURLs (afterWalk twoSourcesManifest) sourceTwo =
             Some [''environments.dev.services.svc-c'', ''environments.dev.services.svc-d'']"
    unfolding afterWalk_serviceURLs
    by (simp add: twoSourcesManifest_def nodesOf_def sourcePaths_def PathForService_def
          PathForEnvironment_def yamlPath_def) (simp add: sourceOne_def sourceTwo_def)
  have 3: "sourceOne \<noteq> sourceTwo" by (simp add: sourceOne_def sourceTwo_def)
  have "validateServiceURLs [sourceOne, sourceTwo] (afterWalk twoSourcesManifest) \<noteq>
        validateServiceURLs [sourceTwo, sourceOne] (afterWalk twoSourcesManifest)"
    using 3 by (simp add: validateServiceURLs_def 1 2 duplicateSourceError_def)
  then have "Validate [sourceOne, sourceTwo] twoSourcesManifest \<noteq> Validate [sourceTwo, sourceOne] twoSourcesManifest"
    by (simp add: Validate_afterWalk validateServiceURLs_def 1 2)
  with twoSourcesManifest_rangeOrder show ?thesis by simp
qed

text \<open>
  C1. Two environments of a manifest with the same name, at any two positions: the
  result of \<open>Validate\<close> holds the field error with the message
  \<open>duplicate field(s) "name"\<close> for that name, at the yaml path \<open>environments.name\<close> that the
  two environments share.
\<close>

theorem duplicate_environment_reported:
  assumes "i < j" and "j < length (Environments m)"
    and "Env_Name (Environments m ! i) = Env_Name (Environments m ! j)"
  shows "FieldError (''duplicate field(s) '' @ [CHR 0x22] @ Env_Name (Environments m ! j) @ [CHR 0x22]) []
           [''environments.'' @ yamlPath (Env_Name (Environments m ! j))]
           \<in> set (members (Validate ks m))"
proof -
  let ?e1 = "Environments m ! i" and ?e2 = "Environments m ! j"
  from list_two_positions [OF assms(1,2)] obtain as bs cs
    where "Environments m = as @ ?e1 # bs @ ?e2 # cs" by blast
  from nodesOf_two_envs [OF this] obtain A B C
    where n: "nodesOf m = A @ EnvNode ?e1 # B @ EnvNode ?e2 # C" by blast
  have "envPath ?e1 = envPath ?e2" using assms(3) by (simp add: PathForEnvironment_def)
  then have "duplicateFieldsError [Env_Name ?e2] [envPath ?e2]
           \<in> set (errs (snd (walkNodes (A @ EnvNode ?e1 # B @ EnvNode ?e2 # C) (afterConfig m))))"
    by (rule walk_env_duplicate)
  then have "duplicateFieldsError [Env_Name ?e2] [envPath ?e2] \<in> set (members (Validate ks m))"
    by (simp add: members_Validate afterWalk_visitorAt visitorAt_def n)
  then show ?thesis
    by (simp only: duplicateFieldsError_env_literal)
qed

theorem duplicate_environment_reported_witness:
  "(0::nat) < 2 \<and> 2 < length (Environments twinManifest) \<and>
   Env_Name (Environments twinManifest ! 0) = Env_Name (Environments twinManifest ! 2) \<and>
   FieldError (''duplicate field(s) '' @ [CHR 0x22] @ ''dev'' @ [CHR 0x22]) [] [''environments.dev'']
     \<in> set (members (Validate [] twinManifest))"
  using duplicate_environment_reported [of 0 2 twinManifest "[]"]
  by (simp add: twinManifest_def yamlPath_def)

text \<open>
  C5, as amended. A service ref of an application is reported missing exactly when it is
  no key of the service-name registry at the moment the application is visited. So a
  ref that is neither the name nor the yaml path of a service visited before is
  reported in the result of \<open>Validate\<close>, by the field error with the message
  \<open>missing service "ref" in app "name"\<close> at the application's yaml path, whatever the walk
  visits afterwards, a service of that name included.
\<close>

theorem forward_reference_missing:
  "(r \<in> set (ServiceRefs app) \<longrightarrow>
      (FieldError (''missing service '' @ [CHR 0x22] @ r @ [CHR 0x22] @ '' in app '' @ [CHR 0x22] @ App_Name app @ [CHR 0x22])
         [] [''environments.'' @ yamlPath (Env_Name env) @ ''.apps.'' @ yamlPath (App_Name app)]
          \<in> set (appended vv (snd (validateVisitor_Application vv env app))) \<longleftrightarrow>
       r \<notin> dom (serviceNames vv))) \<and>
   (nodesOf m = pre @ AppNode env app # post \<and> r \<in> set (ServiceRefs app) \<and>
    (\<forall>e s. SvcNode e s \<in> set pre \<longrightarrow> r \<noteq> Svc_Name s \<and> r \<noteq> svcPath e s) \<longrightarrow>
      FieldError (''missing service '' @ [CHR 0x22] @ r @ [CHR 0x22] @ '' in app '' @ [CHR 0x22] @ App_Name app @ [CHR 0x22])
         [] [''environments.'' @ yamlPath (Env_Name env) @ ''.apps.'' @ yamlPath (App_Name app)]
        \<in> set (members (Validate ks m)))"
proof (intro conjI impI)
  assume "r \<in> set (ServiceRefs app)"
  then have "missingServiceRefError r (App_Name app) [appPath env app]
          \<in> set (appended vv (snd (validateVisitor_Application vv env app))) \<longleftrightarrow>
       r \<notin> dom (serviceNames vv)"
    by (simp add: Application_missing_ref_iff)
  then show "FieldError (''missing service '' @ [CHR 0x22] @ r @ [CHR 0x22] @ '' in app '' @ [CHR 0x22] @ App_Name app @ [CHR 0x22])
         [] [''environments.'' @ yamlPath (Env_Name env) @ ''.apps.'' @ yamlPath (App_Name app)]
          \<in> set (appended vv (snd (validateVisitor_Application vv env app))) \<longleftrightarrow>
       r \<notin> dom (serviceNames vv)"
    by (simp only: missingServiceRefError_literal)
next
  assume a: "nodesOf m = pre @ AppNode env app # post \<and> r \<in> set (ServiceRefs app) \<and>
    (\<forall>e s. SvcNode e s \<in> set pre \<longrightarrow> r \<noteq> Svc_Name s \<and> r \<noteq> svcPath e s)"
  then have "r \<notin> dom (serviceNames (visitorAt m pre))"
    unfolding visitorAt_serviceNames by blast
  with a have "missingServiceRefError r (App_Name app) [appPath env app]
      \<in> set (appended (visitorAt m pre) (snd (visit (visitorAt m pre) (AppNode env app))))"
    by (simp add: Application_missing_ref_iff)
  with a have "missingServiceRefError r (App_Name app) [appPath env app] \<in> set (members (Validate ks m))"
    by (blast intro: members_visitorAt)
  then show "FieldError (''missing service '' @ [CHR 0x22] @ r @ [CHR 0x22] @ '' in app '' @ [CHR 0x22] @ App_Name app @ [CHR 0x22])
         [] [''environments.'' @ yamlPath (Env_Name env) @ ''.apps.'' @ yamlPath (App_Name app)]
        \<in> set (members (Validate ks m))"
    by (simp only: missingServiceRefError_literal)
qed

theorem forward_reference_missing_witness:
  "nodesOf forwardManifest =
     [EnvNode forwardEnv] @ AppNode forwardEnv forwardApp # [EnvNode laterEnv, SvcNode laterEnv forwardSvc] \<and>
   ''svc1'' \<in> set (ServiceRefs forwardApp) \<and> Svc_Name forwardSvc = ''svc1'' \<and>
   FieldError (''missing service '' @ [CHR 0x22] @ ''svc1'' @ [CHR 0x22] @ '' in app '' @ [CHR 0x22] @ ''app1'' @ [CHR 0x22])
     [] [''environments.dev.apps.app1'']
     \<in> set (members (Validate [] forwardManifest))"
  using forward_reference_missing
    [of "''svc1''" forwardApp forwardEnv newVisitor forwardManifest "[EnvNode forwardEnv]"
        "[EnvNode laterEnv, SvcNode laterEnv forwardSvc]" "[]"]
  by (simp add: nodesOf_def forwardManifest_def forwardEnv_def laterEnv_def forwardApp_def forwardSvc_def
        PathForApplication_def PathForEnvironment_def yamlPath_def)

text \<open>
  C5, as stated, fails: the application of environment \<open>bb\<close> refers to a service that is
  declared only in the later environment \<open>cc\<close>, no service visited before bears that
  name, and yet no missing-service error is reported, because the ref equals the yaml
  path of the service \<open>s1\<close> of environment \<open>aa\<close>, which the duplicate check has put into
  the service-name registry. The only error of the run is the invalid name of the later
  service.
\<close>

theorem forward_reference_alias_counterexample:
  "nodesOf aliasManifest =
     [EnvNode aliasEnvA, SvcNode aliasEnvA aliasSvc, EnvNode aliasEnvB] @ AppNode aliasEnvB aliasApp #
     [EnvNode aliasEnvC, SvcNode aliasEnvC laterSvc] \<and>
   ''environments.aa.services.s1'' \<in> set (ServiceRefs aliasApp) \<and>
   Svc_Name laterSvc = ''environments.aa.services.s1'' \<and>
   Svc_Name aliasSvc \<noteq> ''environments.aa.services.s1'' \<and>
   FieldError (''missing service '' @ [CHR 0x22] @ ''environments.aa.services.s1'' @ [CHR 0x22] @
                 '' in app '' @ [CHR 0x22] @ ''app1'' @ [CHR 0x22])
     [] [''environments.bb.apps.app1'']
     \<notin> set (members (Validate [] aliasManifest)) \<and>
   members (Validate [] aliasManifest) =
     [FieldError (''invalid name '' @ [CHR 0x22] @ ''environments.aa.services.s1'' @ [CHR 0x22]) dns1035LabelErrMsg
        [''environments.cc.services.environments.aa.services.s1'']]"
  by (simp add: Validate_def aliasManifest_def aliasEnvA_def aliasEnvB_def aliasEnvC_def aliasSvc_def aliasApp_def
      laterSvc_def newVisitor_def validateConfig_def Walk_def nodesOf_def
      validateVisitor_Environment_def validateVisitor_Application_def validateVisitor_Service_def
      checkDuplicate_def validateName_def NameIsDNS1035Label_def DNS1035LabelMaxLength_def
      isLower_def isDigit_def isLabelChar_def validatePipelines_def validateWebhook_def
      validateServiceURLs_def Join_def Let_def PathForEnvironment_def PathForApplication_def
      PathForService_def yamlPath_def invalidNameError_def quote_def)

end
